theory Spec2Isabelle
  imports Complex_Main "HOL-Library.Signed_Division"
begin

section \<open>Constants\<close>

text \<open>
  The frozen \<^verbatim>\<open>CONSTANTS\<close> object of the sequencer component. JavaScript numbers are
  modelled as exact reals where they are measured quantities (times, positions, volume),
  without the rounding of double-precision arithmetic, and as naturals where they are
  array indices or array lengths. Where the source can produce or receive \<^verbatim>\<open>NaN\<close>
  (the rebound of a falling effect, the tempo read from the slider's value) the model has
  a value for it.
\<close>

definition ROWS :: nat where "ROWS = 16"
definition COLS :: nat where "COLS = 16"
definition MAX_EFFECTS :: nat where "MAX_EFFECTS = 150"
definition DEFAULT_BPM :: real where "DEFAULT_BPM = 120"
definition MIN_BPM :: real where "MIN_BPM = 60"
definition MAX_BPM :: real where "MAX_BPM = 240"
definition FLOOR_Y :: real where "FLOOR_Y = 15.5"
definition BASE_FREQ :: real where "BASE_FREQ = 174.61"

text \<open>\<^verbatim>\<open>LAYERS_CONFIG\<close> has four entries; only their number matters for the grid store.\<close>

definition LAYER_COUNT :: nat where "LAYER_COUNT = 4"

section \<open>Pattern grid store\<close>

text \<open>
  A grid row is a JavaScript array whose slots hold \<^verbatim>\<open>true\<close>, \<^verbatim>\<open>false\<close> or nothing:
  \<open>None\<close> is \<^verbatim>\<open>undefined\<close> (a hole of a sparse array, or a read past the end).
\<close>

type_synonym cell = "bool option"
type_synonym grid = "cell list list"

definition js_index :: "cell list \<Rightarrow> nat \<Rightarrow> cell" where
  \<comment> \<open>\<^verbatim>\<open>row[c]\<close>: reading past the end yields \<^verbatim>\<open>undefined\<close>.\<close>
  "js_index row c = (if c < length row then row ! c else None)"

definition js_store :: "cell list \<Rightarrow> nat \<Rightarrow> cell \<Rightarrow> cell list" where
  \<comment> \<open>\<^verbatim>\<open>row[c] = v\<close>: writing past the end extends the array, leaving holes.\<close>
  "js_store row c v =
     (if c < length row then row[c := v]
      else row @ replicate (c - length row) None @ [v])"

definition truthy :: "cell \<Rightarrow> bool" where
  "truthy v = (v = Some True)"

definition emptyGrid :: grid where
  \<comment> \<open>\<^verbatim>\<open>Array(ROWS).fill().map(() => Array(COLS).fill(false))\<close>\<close>
  "emptyGrid = replicate ROWS (replicate COLS (Some False))"

definition initialGrids :: "grid list" where
  "initialGrids = replicate LAYER_COUNT emptyGrid"

record ui_state =
  grids :: "grid list"
  activeLayerIdx :: nat
  isMouseDown :: bool
  lastTouched :: "(nat \<times> nat) option"

definition initialUi :: ui_state where
  "initialUi = \<lparr>grids = initialGrids, activeLayerIdx = 0, isMouseDown = False,
                lastTouched = None\<rparr>"

definition setActiveLayerIdx :: "nat \<Rightarrow> ui_state \<Rightarrow> ui_state" where
  \<comment> \<open>the layer buttons: \<^verbatim>\<open>onClick={() => setActiveLayerIdx(idx)}\<close>\<close>
  "setActiveLayerIdx idx s = s\<lparr>activeLayerIdx := idx\<rparr>"

subsection \<open>Clearing the active layer\<close>

definition clearGrids :: "nat \<Rightarrow> grid list \<Rightarrow> grid list" where
  \<comment> \<open>the state updater of \<^verbatim>\<open>handleClear\<close>\<close>
  "clearGrids active prev =
     (if active < length prev then prev[active := emptyGrid] else prev)"

definition handleClear :: "ui_state \<Rightarrow> ui_state" where
  "handleClear s = s\<lparr>grids := clearGrids (activeLayerIdx s) (grids s)\<rparr>"

subsection \<open>Toggling a cell\<close>

definition toggleGrids :: "nat \<Rightarrow> nat \<Rightarrow> nat \<Rightarrow> grid list \<Rightarrow> grid list" where
  \<comment> \<open>the state updater of \<^verbatim>\<open>toggleCell\<close>: \<^verbatim>\<open>newLayer[r][c] = !newLayer[r][c]\<close>
      when row \<open>r\<close> exists\<close>
  "toggleGrids active r c prev =
     (if active < length prev then
        (let newLayer = prev ! active in
         if r < length newLayer then
           prev[active := newLayer[r := js_store (newLayer ! r) c
                                          (Some (\<not> truthy (js_index (newLayer ! r) c)))]]
         else prev)
      else prev)"

definition toggleCell :: "nat \<Rightarrow> nat \<Rightarrow> ui_state \<Rightarrow> ui_state" where
  "toggleCell r c s =
     (if \<not> activeLayerIdx s < length (grids s) then s
      else s\<lparr>grids := toggleGrids (activeLayerIdx s) r c (grids s),
              lastTouched := Some (r, c)\<rparr>)"

subsection \<open>Drag painting\<close>

definition activateGrids :: "nat \<Rightarrow> nat \<Rightarrow> nat \<Rightarrow> grid list \<Rightarrow> grid list" where
  \<comment> \<open>the state updater shared by \<^verbatim>\<open>handleMouseEnter\<close> and \<^verbatim>\<open>handleTouchMove\<close>:
      \<^verbatim>\<open>currentVal = newGrids[active][r]?.[c]\<close>, written only when it is strictly
      \<^verbatim>\<open>false\<close>\<close>
  "activateGrids active r c prev =
     (if \<not> active < length prev then prev
      else
        (let layer = prev ! active;
             currentVal = (if r < length layer then js_index (layer ! r) c else None)
         in if currentVal = Some False then
              prev[active := layer[r := js_store (layer ! r) c (Some True)]]
            else prev))"

definition handleMouseDown :: "ui_state \<Rightarrow> ui_state" where
  "handleMouseDown s = s\<lparr>isMouseDown := True, lastTouched := None\<rparr>"

definition handleMouseUp :: "ui_state \<Rightarrow> ui_state" where
  "handleMouseUp s = s\<lparr>isMouseDown := False, lastTouched := None\<rparr>"

definition handleMouseEnter :: "nat \<Rightarrow> nat \<Rightarrow> ui_state \<Rightarrow> ui_state" where
  "handleMouseEnter r c s =
     (if isMouseDown s then
        (if lastTouched s = Some (r, c) then s
         else s\<lparr>grids := activateGrids (activeLayerIdx s) r c (grids s),
                 lastTouched := Some (r, c)\<rparr>)
      else s)"

definition handleTouchMove :: "(nat \<times> nat) option \<Rightarrow> ui_state \<Rightarrow> ui_state" where
  \<comment> \<open>The argument is the result of the hit test: the \<^verbatim>\<open>data-row\<close>/\<^verbatim>\<open>data-col\<close>
      of the element under the finger, if there is one.\<close>
  "handleTouchMove hit s =
     (case hit of
        None \<Rightarrow> s
      | Some (r, c) \<Rightarrow>
          (if lastTouched s = Some (r, c) then s
           else s\<lparr>grids := activateGrids (activeLayerIdx s) r c (grids s),
                   lastTouched := Some (r, c)\<rparr>))"

subsection \<open>Reading cells\<close>

definition cellAt :: "grid list \<Rightarrow> nat \<Rightarrow> nat \<Rightarrow> nat \<Rightarrow> cell" where
  "cellAt gs l r c =
     (if l < length gs \<and> r < length (gs ! l) then js_index (gs ! l ! r) c else None)"

definition cellActive :: "grid list \<Rightarrow> nat \<Rightarrow> nat \<Rightarrow> nat \<Rightarrow> bool" where
  "cellActive gs l r c = truthy (cellAt gs l r c)"

definition rowExists :: "grid list \<Rightarrow> nat \<Rightarrow> nat \<Rightarrow> bool" where
  "rowExists gs l r = (l < length gs \<and> r < length (gs ! l))"

text \<open>A state used to exercise the handlers: cell (2,3) of layer 0 and cell (4,5) of
  layer 1 are on, layer 1 is selected.\<close>

definition demoUi :: ui_state where
  "demoUi = toggleCell 4 5 (setActiveLayerIdx 1 (toggleCell 2 3 initialUi))"

subsection \<open>The grid store as a state machine\<close>

text \<open>
  The input events of the grid: pressing a cell, entering a cell with the mouse, a touch
  move with its hit-test result, press and release on the grid container, the clear
  button and the four layer buttons.
\<close>

datatype ui_event =
    Toggle nat nat
  | Enter nat nat
  | Touch "(nat \<times> nat) option"
  | Down
  | Up
  | Clear
  | Select nat

fun uiStep :: "ui_state \<Rightarrow> ui_event \<Rightarrow> ui_state" where
  "uiStep s (Toggle r c) = toggleCell r c s"
| "uiStep s (Enter r c) = handleMouseEnter r c s"
| "uiStep s (Touch hit) = handleTouchMove hit s"
| "uiStep s Down = handleMouseDown s"
| "uiStep s Up = handleMouseUp s"
| "uiStep s Clear = handleClear s"
| "uiStep s (Select idx) = (if idx < LAYER_COUNT then setActiveLayerIdx idx s else s)"

definition uiRun :: "ui_event list \<Rightarrow> ui_state" where
  "uiRun evs = foldl uiStep initialUi evs"

definition cellsBoolean :: "grid list \<Rightarrow> bool" where
  \<comment> \<open>there are four layers and each of their 16 by 16 cells holds a boolean\<close>
  "cellsBoolean gs =
     (length gs = LAYER_COUNT
      \<and> list_all (\<lambda>l. list_all (\<lambda>r. list_all (\<lambda>c. cellAt gs l r c \<noteq> None) [0..<COLS])
                                [0..<ROWS]) [0..<LAYER_COUNT])"

definition uiInv :: "ui_state \<Rightarrow> bool" where
  "uiInv s = (cellsBoolean (grids s) \<and> activeLayerIdx s < LAYER_COUNT)"

section \<open>Sequencer clock\<close>

text \<open>
  The tempo arrives as \<^verbatim>\<open>Number(e.target.value)\<close>, which can be any JavaScript number:
  a finite one, an infinity or \<^verbatim>\<open>NaN\<close>. \<^verbatim>\<open>Math.max\<close> and \<^verbatim>\<open>Math.min\<close> return
  \<^verbatim>\<open>NaN\<close> as soon as one argument is \<^verbatim>\<open>NaN\<close>. Zero carries no sign here: dividing by a
  negative zero would give the opposite infinity, and the tempo code never divides by
  zero.
\<close>

datatype jsnum = JNum real | JPosInf | JNegInf | JNaN

fun Math_min :: "jsnum \<Rightarrow> jsnum \<Rightarrow> jsnum" where
  "Math_min JNaN b = JNaN"
| "Math_min a JNaN = JNaN"
| "Math_min JNegInf b = JNegInf"
| "Math_min a JNegInf = JNegInf"
| "Math_min JPosInf b = b"
| "Math_min a JPosInf = a"
| "Math_min (JNum a) (JNum b) = JNum (min a b)"

fun Math_max :: "jsnum \<Rightarrow> jsnum \<Rightarrow> jsnum" where
  "Math_max JNaN b = JNaN"
| "Math_max a JNaN = JNaN"
| "Math_max JPosInf b = JPosInf"
| "Math_max a JPosInf = JPosInf"
| "Math_max JNegInf b = b"
| "Math_max a JNegInf = a"
| "Math_max (JNum a) (JNum b) = JNum (max a b)"

fun js_div :: "jsnum \<Rightarrow> jsnum \<Rightarrow> jsnum" where
  "js_div JNaN b = JNaN"
| "js_div a JNaN = JNaN"
| "js_div (JNum a) (JNum b) =
     (if b \<noteq> 0 then JNum (a / b)
      else if a > 0 then JPosInf else if a < 0 then JNegInf else JNaN)"
| "js_div (JNum a) b = JNum 0"
| "js_div JPosInf (JNum b) = (if b \<ge> 0 then JPosInf else JNegInf)"
| "js_div JNegInf (JNum b) = (if b \<ge> 0 then JNegInf else JPosInf)"
| "js_div a b = JNaN"

text \<open>
  The sequencer's React state (\<^verbatim>\<open>isPlaying\<close>, \<^verbatim>\<open>currentCol\<close>, \<^verbatim>\<open>bpm\<close>) and the
  interval its effect hook owns: \<open>interval\<close> is the period in milliseconds handed to
  \<^verbatim>\<open>setInterval\<close> for the installed timer, \<open>None\<close> when no timer is installed.
\<close>

record seq_state =
  isPlaying :: bool
  currentCol :: int
  bpm :: jsnum
  interval :: "jsnum option"

definition initialSeq :: seq_state where
  "initialSeq =
     \<lparr>isPlaying = False, currentCol = - 1, bpm = JNum DEFAULT_BPM, interval = None\<rparr>"

definition safeBpm :: "jsnum \<Rightarrow> jsnum" where
  \<comment> \<open>\<^verbatim>\<open>Math.max(1, bpm)\<close>\<close>
  "safeBpm b = Math_max (JNum 1) b"

definition msPerBeat :: "jsnum \<Rightarrow> jsnum" where
  \<comment> \<open>\<^verbatim>\<open>(60 * 1000) / safeBpm / 4\<close>\<close>
  "msPerBeat b = js_div (js_div (JNum (60 * 1000)) (safeBpm b)) (JNum 4)"

definition nextCol :: "int \<Rightarrow> int" where
  \<comment> \<open>\<^verbatim>\<open>(prev + 1) % CONSTANTS.COLS\<close>; JavaScript's \<^verbatim>\<open>%\<close> truncates towards zero\<close>
  "nextCol prev = (prev + 1) smod int COLS"

definition sequencerEffect :: "seq_state \<Rightarrow> seq_state" where
  \<comment> \<open>The effect hook, run after its cleanup has cleared the previous interval.\<close>
  "sequencerEffect s =
     (if isPlaying s then s\<lparr>interval := Some (msPerBeat (bpm s))\<rparr>
      else s\<lparr>currentCol := - 1, interval := None\<rparr>)"

definition handleStart :: "seq_state \<Rightarrow> seq_state" where
  "handleStart s = sequencerEffect (s\<lparr>isPlaying := \<not> isPlaying s\<rparr>)"

definition handleBpmChange :: "jsnum \<Rightarrow> seq_state \<Rightarrow> seq_state" where
  \<comment> \<open>\<open>val\<close> is \<^verbatim>\<open>Number(e.target.value)\<close>;
      \<^verbatim>\<open>setBpm(Math.max(MIN_BPM, Math.min(MAX_BPM, val)))\<close>\<close>
  "handleBpmChange val s =
     sequencerEffect (s\<lparr>bpm := Math_max (JNum MIN_BPM) (Math_min (JNum MAX_BPM) val)\<rparr>)"

definition tick :: "seq_state \<Rightarrow> seq_state" where
  \<comment> \<open>The interval callback; it runs only while a timer is installed.\<close>
  "tick s = (if interval s = None then s else s\<lparr>currentCol := nextCol (currentCol s)\<rparr>)"

datatype seq_event = Start | Tick | BpmChange jsnum | DepsChange

fun seqStep :: "seq_state \<Rightarrow> seq_event \<Rightarrow> seq_state" where
  "seqStep s Start = handleStart s"
| "seqStep s Tick = tick s"
| "seqStep s (BpmChange v) = handleBpmChange v s"
| "seqStep s DepsChange = sequencerEffect s"

definition seqRun :: "seq_event list \<Rightarrow> seq_state" where
  \<comment> \<open>the state after the mount-time run of the effect and a sequence of events\<close>
  "seqRun evs = foldl seqStep (sequencerEffect initialSeq) evs"

definition seqInv :: "seq_state \<Rightarrow> bool" where
  \<comment> \<open>what holds of every state the sequencer reaches\<close>
  "seqInv s = ((isPlaying s \<or> currentCol s = - 1)
     \<and> - 1 \<le> currentCol s \<and> currentCol s < 16
     \<and> interval s = (if isPlaying s then Some (msPerBeat (bpm s)) else None))"

definition tempoInRange :: "jsnum \<Rightarrow> bool" where
  \<comment> \<open>a finite tempo between \<^verbatim>\<open>MIN_BPM\<close> and \<^verbatim>\<open>MAX_BPM\<close>\<close>
  "tempoInRange b = (case b of JNum x \<Rightarrow> MIN_BPM \<le> x \<and> x \<le> MAX_BPM | _ \<Rightarrow> False)"

definition numericTempo :: "seq_event list \<Rightarrow> bool" where
  \<comment> \<open>no tempo change of the sequence carries \<^verbatim>\<open>NaN\<close>\<close>
  "numericTempo evs = list_all (\<lambda>ev. ev \<noteq> BpmChange JNaN) evs"

definition clamp_spec :: "real \<Rightarrow> real \<Rightarrow> real \<Rightarrow> real" where
  \<comment> \<open>The specification's \<^verbatim>\<open>clamp(v, lo, hi)\<close>, to compare the code with.\<close>
  "clamp_spec v lo hi = (if v < lo then lo else if hi < v then hi else v)"

definition tickCells :: "grid list \<Rightarrow> int \<Rightarrow> (nat \<times> nat) list" where
  \<comment> \<open>The (layer, row) pairs a tick fires for the new column, in the order of the two
      nested loops: \<^verbatim>\<open>layerGrid[r] && layerGrid[r][nextCol]\<close>.\<close>
  "tickCells gs col =
     concat (map (\<lambda>idx. map (\<lambda>r. (idx, r))
                    (filter (\<lambda>r. 0 \<le> col \<and> cellActive gs idx r (nat col)) [0..<ROWS]))
                 [0..<LAYER_COUNT])"

section \<open>Effect simulation\<close>

text \<open>
  A number that may be \<^verbatim>\<open>NaN\<close>: \<open>None\<close> is \<^verbatim>\<open>NaN\<close> (also what arithmetic makes of
  \<^verbatim>\<open>undefined\<close>). The vertical position and velocity of a falling effect have this
  type, since the rebound takes a square root. Comparisons with \<^verbatim>\<open>NaN\<close> are false.
\<close>

type_synonym num = "real option"

definition num_add :: "num \<Rightarrow> num \<Rightarrow> num" where
  "num_add a b = (case (a, b) of (Some x, Some y) \<Rightarrow> Some (x + y) | _ \<Rightarrow> None)"

definition num_sub :: "num \<Rightarrow> num \<Rightarrow> num" where
  "num_sub a b = (case (a, b) of (Some x, Some y) \<Rightarrow> Some (x - y) | _ \<Rightarrow> None)"

definition num_neg :: "num \<Rightarrow> num" where
  "num_neg a = map_option uminus a"

definition num_lt :: "num \<Rightarrow> num \<Rightarrow> bool" where
  "num_lt a b = (case (a, b) of (Some x, Some y) \<Rightarrow> x < y | _ \<Rightarrow> False)"

definition num_le :: "num \<Rightarrow> num \<Rightarrow> bool" where
  "num_le a b = (case (a, b) of (Some x, Some y) \<Rightarrow> x \<le> y | _ \<Rightarrow> False)"

definition Math_abs :: "num \<Rightarrow> num" where
  "Math_abs a = map_option abs a"

definition Math_sqrt :: "real \<Rightarrow> num" where
  "Math_sqrt x = (if x < 0 then None else Some (sqrt x))"

datatype effect_type = RIPPLE | GRAVITY | SPLASH | STAR

record particle =
  p_r :: real
  p_c :: real
  p_dr :: real
  p_dc :: real
  p_life :: real
  p_scale :: real

text \<open>
  An effect object. Fields the source sets only for one archetype are \<^verbatim>\<open>undefined\<close>
  (\<open>None\<close>) or empty for the others: \<open>eff_y\<close>, \<open>eff_dy\<close> for GRAVITY, \<open>particles\<close> for
  SPLASH.
\<close>

record effect =
  eff_id :: real
  eff_type :: effect_type
  eff_r :: real
  eff_c :: real
  startTime :: real
  color :: string
  layerIdx :: nat
  eff_y :: num
  eff_dy :: num
  particles :: "particle list"

subsection \<open>Creation\<close>

definition particleCount :: nat where "particleCount = 12"

definition makeParticle :: "(nat \<Rightarrow> real) \<Rightarrow> nat \<Rightarrow> particle" where
  \<comment> \<open>The body of the creation loop; \<open>rnd k\<close> is the result of the \<open>k\<close>-th call of
      \<^verbatim>\<open>Math.random()\<close> made by \<^verbatim>\<open>addVisualEffect\<close> (call 0 draws the id).\<close>
  "makeParticle rnd i =
     (let angle = (pi * 2 * real i) / real particleCount;
          speed = 0.1 + rnd (2 * i + 1) * 0.3
      in \<lparr>p_r = 0, p_c = 0, p_dr = sin angle * speed, p_dc = cos angle * speed,
          p_life = 1.0, p_scale = 1.0 + rnd (2 * i + 2)\<rparr>)"

definition newEffect ::
  "real \<Rightarrow> real \<Rightarrow> effect_type \<Rightarrow> string \<Rightarrow> nat \<Rightarrow> (nat \<Rightarrow> real) \<Rightarrow> real \<Rightarrow> effect" where
  "newEffect r c ty layerColor idx rnd now =
     \<lparr>eff_id = rnd 0, eff_type = ty, eff_r = r, eff_c = c, startTime = now,
      color = layerColor, layerIdx = idx,
      eff_y = (if ty = GRAVITY then Some r else None),
      eff_dy = (if ty = GRAVITY then Some 0 else None),
      particles = (if ty = SPLASH then map (makeParticle rnd) [0..<particleCount] else [])\<rparr>"

definition addVisualEffect ::
  "real \<Rightarrow> real \<Rightarrow> effect_type \<Rightarrow> string \<Rightarrow> nat \<Rightarrow> (nat \<Rightarrow> real) \<Rightarrow> real
     \<Rightarrow> effect list \<Rightarrow> effect list" where
  \<comment> \<open>the state updater of \<^verbatim>\<open>addVisualEffect\<close>; \<open>now\<close> is \<^verbatim>\<open>Date.now()\<close>\<close>
  "addVisualEffect r c ty layerColor idx rnd now prev =
     (if MAX_EFFECTS \<le> length prev then prev
      else prev @ [newEffect r c ty layerColor idx rnd now])"

subsection \<open>The per-frame update\<close>

definition gravity :: real where "gravity = 0.025"

definition bounceVelocity :: "real \<Rightarrow> num" where
  \<comment> \<open>\<^verbatim>\<open>height > 0 ? -Math.sqrt(2 * g * height) : 0\<close>\<close>
  "bounceVelocity height =
     (if height > 0 then num_neg (Math_sqrt (2 * gravity * height)) else Some 0)"

definition gravityStep :: "real \<Rightarrow> effect \<Rightarrow> effect \<times> bool" where
  "gravityStep now eff =
     (let y1 = num_add (eff_y eff) (eff_dy eff);
          dy1 = num_add (eff_dy eff) (Some gravity);
          hit = num_lt (Some FLOOR_Y) y1;
          y2 = (if hit then Some FLOOR_Y else y1);
          dy2 = (if hit then bounceVelocity (FLOOR_Y - eff_r eff) else dy1);
          stop = (num_lt dy2 (Some 0) \<and> num_lt (Some (- 0.05)) dy2
                    \<and> num_lt (Math_abs (num_sub y2 (Some FLOOR_Y))) (Some 0.1));
          expired = (now - startTime eff > 3000)
      in (eff\<lparr>eff_y := y2, eff_dy := dy2\<rparr>, \<not> stop \<and> \<not> expired))"

definition particleUpdate :: "particle \<Rightarrow> particle" where
  \<comment> \<open>The object literal of the SPLASH branch: five computed properties, then
      \<^verbatim>\<open>...p\<close>. The spread comes last, so every own property of \<open>p\<close> (all six fields)
      is written over the computed one of the same name.\<close>
  "particleUpdate p =
     (let computed = \<lparr>p_r = p_r p + p_dr p, p_c = p_c p + p_dc p, p_dr = p_dr p + 0.005,
                      p_dc = p_dc p, p_life = p_life p - 0.02, p_scale = p_scale p * 0.95\<rparr>
      in computed\<lparr>p_r := p_r p, p_c := p_c p, p_dr := p_dr p, p_dc := p_dc p,
                  p_life := p_life p, p_scale := p_scale p\<rparr>)"

definition splashStep :: "effect \<Rightarrow> effect \<times> bool" where
  "splashStep eff =
     (let ps = filter (\<lambda>p. p_life p > 0) (map particleUpdate (particles eff))
      in (eff\<lparr>particles := ps\<rparr>, ps \<noteq> []))"

definition lifeTime :: real where "lifeTime = 600"

definition stepEffect :: "real \<Rightarrow> effect \<Rightarrow> effect \<times> bool" where
  "stepEffect now eff =
     (if eff_type eff = GRAVITY then gravityStep now eff
      else if eff_type eff = SPLASH then splashStep eff
      else (eff, \<not> (now - startTime eff > lifeTime)))"

fun physicsLoop :: "real \<Rightarrow> effect list \<Rightarrow> effect list" where
  "physicsLoop now [] = []"
| "physicsLoop now (eff # rest) =
     (let (updatedEff, keep) = stepEffect now eff
      in if keep then updatedEff # physicsLoop now rest else physicsLoop now rest)"

definition updatePhysics :: "real \<Rightarrow> effect list \<Rightarrow> effect list" where
  \<comment> \<open>the state updater of one animation frame; \<open>now\<close> is \<^verbatim>\<open>Date.now()\<close>\<close>
  "updatePhysics now prevEffects =
     (if prevEffects = [] then prevEffects
      else
        (let startIndex = length prevEffects - MAX_EFFECTS;
             processingEffects = drop startIndex prevEffects
         in physicsLoop now processingEffects))"

datatype effect_event =
    Insert real real effect_type string nat "nat \<Rightarrow> real" real
  | Frame real

fun effectStep :: "effect list \<Rightarrow> effect_event \<Rightarrow> effect list" where
  "effectStep effs (Insert r c ty col idx rnd now) = addVisualEffect r c ty col idx rnd now effs"
| "effectStep effs (Frame now) = updatePhysics now effs"

definition effectRun :: "effect_event list \<Rightarrow> effect list" where
  "effectRun evs = foldl effectStep [] evs"

section \<open>Brightness field\<close>

definition rippleBrightness :: "effect \<Rightarrow> real \<Rightarrow> real \<Rightarrow> real \<Rightarrow> real" where
  "rippleBrightness eff now r c =
     (let timeDelta = now - startTime eff;
          radius = timeDelta * 0.012;
          dist = max \<bar>r - eff_r eff\<bar> \<bar>c - eff_c eff\<bar>;
          distDiff = \<bar>dist - radius\<bar>
      in if distDiff < 1.0 then (1.0 - distDiff) * (1 - timeDelta / 600) else 0)"

definition gravityBrightness :: "effect \<Rightarrow> real \<Rightarrow> real \<Rightarrow> real" where
  "gravityBrightness eff r c =
     (let distY = Math_abs (num_sub (Some r) (eff_y eff));
          distX = \<bar>c - eff_c eff\<bar>;
          head = (if distX = 0 \<and> num_lt distY (Some 0.8)
                  then (case distY of Some d \<Rightarrow> 1.0 - d | None \<Rightarrow> 0) else 0);
          trail = (if distX = 0 \<and> num_lt (Some r) (eff_y eff) \<and> r \<ge> eff_r eff
                   then 0.1 else 0)
      in head + trail)"

definition particleBrightness :: "effect \<Rightarrow> real \<Rightarrow> real \<Rightarrow> particle \<Rightarrow> real" where
  "particleBrightness eff r c p =
     (let particleR = eff_r eff + p_r p;
          particleC = eff_c eff + p_c p;
          dr = r - particleR;
          dc = c - particleC
      in if \<bar>dr\<bar> > 1 \<or> \<bar>dc\<bar> > 1 then 0
         else
           (let dist = sqrt (dr * dr + dc * dc);
                size = 0.5 * p_scale p
            in if dist < size then (1.0 - dist / size) * p_life p else 0))"

definition splashBrightness :: "effect \<Rightarrow> real \<Rightarrow> real \<Rightarrow> real" where
  "splashBrightness eff r c = sum_list (map (particleBrightness eff r c) (particles eff))"

definition starBrightness :: "effect \<Rightarrow> real \<Rightarrow> real \<Rightarrow> real \<Rightarrow> real" where
  "starBrightness eff now r c =
     (let timeDelta = now - startTime eff;
          life = 1 - timeDelta / 600
      in if life > 0 then
           (let distR = \<bar>r - eff_r eff\<bar>;
                distC = \<bar>c - eff_c eff\<bar>;
                arms = (if (distR = 0 \<and> distC < 4) \<or> (distC = 0 \<and> distR < 4)
                        then (1 - max distR distC / 4) * life else 0);
                diagonals = (if distR = distC \<and> distR < 3
                             then (1 - distR / 3) * life * 0.7 else 0)
            in arms + diagonals)
         else 0)"

definition contribution :: "effect \<Rightarrow> real \<Rightarrow> real \<Rightarrow> real \<Rightarrow> real" where
  "contribution eff now r c =
     (case eff_type eff of
        RIPPLE \<Rightarrow> rippleBrightness eff now r c
      | GRAVITY \<Rightarrow> gravityBrightness eff r c
      | SPLASH \<Rightarrow> splashBrightness eff r c
      | STAR \<Rightarrow> starBrightness eff now r c)"

fun brightnessLoop :: "nat \<Rightarrow> real \<Rightarrow> real \<Rightarrow> real \<Rightarrow> effect list \<Rightarrow> real \<Rightarrow> real" where
  \<comment> \<open>The loop of \<^verbatim>\<open>getCellBrightness\<close> over the effects in the order it visits them,
      with the running \<^verbatim>\<open>brightness\<close>; \<^verbatim>\<open>continue\<close> skips the early exit too.\<close>
  "brightnessLoop active now r c [] brightness = brightness"
| "brightnessLoop active now r c (eff # rest) brightness =
     (if layerIdx eff \<noteq> active then brightnessLoop active now r c rest brightness
      else if \<bar>eff_r eff - r\<bar> > 8 \<and> \<bar>eff_c eff - c\<bar> > 8 \<and> eff_type eff \<noteq> SPLASH
        then brightnessLoop active now r c rest brightness
      else
        (let brightness' = brightness + contribution eff now r c
         in if brightness' \<ge> 1 then brightness'
            else brightnessLoop active now r c rest brightness'))"

definition getCellBrightness :: "nat \<Rightarrow> effect list \<Rightarrow> real \<Rightarrow> real \<Rightarrow> real \<Rightarrow> real" where
  \<comment> \<open>\<open>active\<close> is \<^verbatim>\<open>activeLayerIdx\<close>, \<open>now\<close> is \<^verbatim>\<open>Date.now()\<close>; the source walks
      the array from its last element to its first.\<close>
  "getCellBrightness active effects now r c =
     min 1 (brightnessLoop active now r c (rev effects) 0)"

section \<open>Audio engine\<close>

text \<open>
  What a trigger leaves behind in the audio context is the voice it scheduled; a voice is
  recorded with the parameters the source computes for it.
\<close>

datatype voice =
    Kick real real real
  | Snare real real real
  | HiHat real real real
  | Tone string real real real real

record AudioContext =
  sampleRate :: real
  currentTime :: real
  suspended :: bool
  voices :: "voice list"

record AudioEngine =
  ctx :: "AudioContext option"
  masterGain :: "real option"
  compressor :: bool
  isInitialized :: bool
  console :: "string list"

text \<open>
  The statements of \<^verbatim>\<open>init\<close> that follow the storing of the new context, in their
  order: creating the compressor (stored in \<^verbatim>\<open>this.compressor\<close>), setting its five
  parameters, creating the master gain (stored in \<^verbatim>\<open>this.masterGain\<close>, its gain set
  to 0.4), and connecting the two nodes.
\<close>

datatype wiring_step = CreateCompressor | ConfigureCompressor | CreateGain | Connect

text \<open>
  The host the page runs on, as \<^verbatim>\<open>init\<close> finds it: no \<^verbatim>\<open>window\<close>, no
  \<^verbatim>\<open>AudioContext\<close> constructor, a constructor that throws, a context on which the
  given step throws after the context was stored, or a working browser.
\<close>

datatype host =
    NoWindow
  | NoAudioAPI
  | ConstructionFails
  | WiringFails AudioContext wiring_step
  | Browser AudioContext

definition newAudioEngine :: AudioEngine where
  "newAudioEngine = \<lparr>ctx = None, masterGain = None, compressor = False,
                      isInitialized = False, console = []\<rparr>"

definition resume :: "AudioContext \<Rightarrow> AudioContext" where
  "resume a = a\<lparr>suspended := False\<rparr>"

definition init :: "host \<Rightarrow> AudioEngine \<Rightarrow> AudioEngine" where
  "init h e =
     (case h of
        NoWindow \<Rightarrow> e
      | NoAudioAPI \<Rightarrow>
          (case ctx e of
             None \<Rightarrow> e\<lparr>console := console e @ [''Web Audio API is not supported in this browser.'']\<rparr>
           | Some a \<Rightarrow> e\<lparr>ctx := Some (resume a)\<rparr>)
      | ConstructionFails \<Rightarrow>
          (case ctx e of
             None \<Rightarrow> e\<lparr>console := console e @ [''AudioEngine initialization error:'']\<rparr>
           | Some a \<Rightarrow> e\<lparr>ctx := Some (resume a)\<rparr>)
      | WiringFails a0 step \<Rightarrow>
          (case ctx e of
             None \<Rightarrow> e\<lparr>ctx := Some a0,
                        compressor := (compressor e \<or> step \<noteq> CreateCompressor),
                        masterGain := (if step = Connect then Some 0.4 else masterGain e),
                        console := console e @ [''AudioEngine initialization error:'']\<rparr>
           | Some a \<Rightarrow> e\<lparr>ctx := Some (resume a)\<rparr>)
      | Browser a0 \<Rightarrow>
          (case ctx e of
             None \<Rightarrow> e\<lparr>ctx := Some (resume a0), masterGain := Some 0.4, compressor := True,
                        isInitialized := True\<rparr>
           | Some a \<Rightarrow> e\<lparr>ctx := Some (resume a)\<rparr>))"

definition dispose :: "AudioEngine \<Rightarrow> AudioEngine" where
  "dispose e = (case ctx e of None \<Rightarrow> e | Some a \<Rightarrow> e\<lparr>ctx := None, isInitialized := False\<rparr>)"

definition PENTATONIC_RATIOS :: "real list" where
  "PENTATONIC_RATIOS =
     [4.0, 3.367, 3.0, 2.667, 2.378, 2.0, 1.683, 1.5,
      1.333, 1.189, 1.0, 0.841, 0.75, 0.667, 0.595, 0.5]"

definition schedule :: "voice \<Rightarrow> AudioEngine \<Rightarrow> AudioContext \<Rightarrow> AudioEngine" where
  "schedule v e a = e\<lparr>ctx := Some (a\<lparr>voices := voices a @ [v]\<rparr>)\<rparr>"

definition playDrum :: "AudioEngine \<Rightarrow> nat \<Rightarrow> real \<Rightarrow> AudioEngine" where
  \<comment> \<open>A drum voice is recorded with its gain, its start time and the length of its decay.\<close>
  "playDrum e row rawVolume =
     (case ctx e of
        None \<Rightarrow> e
      | Some a \<Rightarrow>
          if \<not> isInitialized e then e
          else
            (let volume = max 0 (min 1 rawVolume);
                 now = currentTime a
             in if row \<ge> 12 then schedule (Kick volume now 0.5) e a
                else if row \<ge> 8 then schedule (Snare volume now 0.2) e a
                else schedule (HiHat volume now 0.05) e a))"

definition playTone :: "AudioEngine \<Rightarrow> nat \<Rightarrow> string \<Rightarrow> real \<Rightarrow> real \<Rightarrow> AudioEngine" where
  \<comment> \<open>A tone is recorded with its waveform, frequency, peak gain, start and stop time.\<close>
  "playTone e row layerType baseOctave rawVolume =
     (case ctx e of
        None \<Rightarrow> e
      | Some a \<Rightarrow>
          if \<not> isInitialized e then e
          else
            (let volume = max 0 (min 1 rawVolume)
             in if layerType = ''drum'' then playDrum e row volume
                else
                  (let safeType = (if layerType \<in> set [''sine'', ''square'', ''sawtooth'', ''triangle'']
                                   then layerType else ''sine'');
                       ratio = (if row < length PENTATONIC_RATIOS then PENTATONIC_RATIOS ! row
                                else 1.0);
                       freq0 = BASE_FREQ * ratio;
                       freq1 = (if baseOctave \<noteq> 0 then freq0 * (2 powr baseOctave) else freq0);
                       freq = (if freq1 > sampleRate a / 2 then sampleRate a / 2 else freq1);
                       now = currentTime a;
                       peak = (if layerType = ''square'' then 0.3 * volume
                               else if layerType = ''triangle'' then 0.5 * volume
                               else 0.6 * volume);
                       duration = (if layerType = ''square'' then 0.4
                                   else if layerType = ''triangle'' then 0.9 else 0.6)
                   in schedule (Tone safeType freq peak now (now + duration + 0.05)) e a)))"

definition hostWorks :: "host \<Rightarrow> bool" where
  "hostWorks h = (case h of Browser a \<Rightarrow> True | _ \<Rightarrow> False)"

definition splashAlive :: "effect \<Rightarrow> bool" where
  \<comment> \<open>a SPLASH effect that still has particles, all with life left\<close>
  "splashAlive e =
     (eff_type e = SPLASH \<and> particles e \<noteq> [] \<and> list_all (\<lambda>p. p_life p > 0) (particles e))"

definition contributesSoundly :: "real \<Rightarrow> effect \<Rightarrow> bool" where
  \<comment> \<open>at query time \<open>now\<close> the effect is no ripple older than its life time, and none of
      its particles has negative life\<close>
  "contributesSoundly now e =
     ((eff_type e \<noteq> RIPPLE \<or> now - startTime e \<le> 600)
      \<and> list_all (\<lambda>p. 0 \<le> p_life p) (particles e))"

section \<open>Concrete inputs\<close>

definition constRnd :: "nat \<Rightarrow> real" where
  \<comment> \<open>a run in which every \<^verbatim>\<open>Math.random()\<close> returns one half\<close>
  "constRnd k = 0.5"

definition splashDemo :: effect where
  \<comment> \<open>the splash fired by row 3, column 5 of layer 2 at time 1000\<close>
  "splashDemo = newEffect 3 5 SPLASH ''#f472b6'' 2 constRnd 1000"

definition rippleDemo :: effect where
  \<comment> \<open>the ripple fired by row 8, column 3 of layer 0 at time 1000\<close>
  "rippleDemo = newEffect 8 3 RIPPLE ''#60a5fa'' 0 constRnd 1000"

definition gravityOnFloor :: effect where
  \<comment> \<open>a falling effect whose origin row is the floor row, after its first frame\<close>
  "gravityOnFloor = fst (stepEffect 1016 (newEffect 15.5 3 GRAVITY ''#34d399'' 1 constRnd 1000))"

definition gravityFalling :: effect where
  \<comment> \<open>the falling effect of row 15, column 3, in the frame before it reaches the floor\<close>
  "gravityFalling =
     (newEffect 15 3 GRAVITY ''#34d399'' 1 constRnd 1000)\<lparr>eff_y := Some 15.375, eff_dy := Some 0.15\<rparr>"

definition testContext :: AudioContext where
  "testContext = \<lparr>sampleRate = 44100, currentTime = 0, suspended = True, voices = []\<rparr>"

section \<open>Properties of the grid store\<close>

subsection \<open>Reading a cell after a write\<close>

lemma js_index_js_store:
  "js_index (js_store row c v) c' = (if c' = c then v else js_index row c')"
  by (auto simp: js_index_def js_store_def nth_append)

lemma cellAt_update_row:
  assumes "a < length gs" and "r < length (gs ! a)"
  shows "cellAt (gs[a := (gs ! a)[r := row']]) l r' c' =
           (if l = a \<and> r' = r then js_index row' c' else cellAt gs l r' c')"
  using assms by (auto simp: cellAt_def nth_list_update)

lemma length_clearGrids: "length (clearGrids a gs) = length gs"
  by (simp add: clearGrids_def)

lemma length_toggleGrids: "length (toggleGrids a r c gs) = length gs"
  by (simp add: toggleGrids_def Let_def)

lemma length_activateGrids: "length (activateGrids a r c gs) = length gs"
  by (simp add: activateGrids_def Let_def)

lemma length_initialGrids: "length initialGrids = 4"
  by (simp add: initialGrids_def LAYER_COUNT_def)

lemma rowExists_toggleGrids: "rowExists (toggleGrids a r c gs) l r' = rowExists gs l r'"
  by (auto simp: rowExists_def toggleGrids_def Let_def nth_list_update)

lemma rowExists_activateGrids: "rowExists (activateGrids a r c gs) l r' = rowExists gs l r'"
  by (auto simp: rowExists_def activateGrids_def Let_def nth_list_update)

lemma rowExists_initialGrids: "rowExists initialGrids l r = (l < 4 \<and> r < 16)"
  by (auto simp: rowExists_def initialGrids_def LAYER_COUNT_def emptyGrid_def ROWS_def)

lemma cellAt_initialGrids:
  "cellAt initialGrids l r c = (if l < 4 \<and> r < 16 \<and> c < 16 then Some False else None)"
  by (auto simp: cellAt_def initialGrids_def LAYER_COUNT_def emptyGrid_def ROWS_def COLS_def
                 js_index_def)

lemma cellAt_clearGrids:
  "cellAt (clearGrids a gs) l r c =
     (if l = a \<and> a < length gs then (if r < 16 \<and> c < 16 then Some False else None)
      else cellAt gs l r c)"
  by (auto simp: cellAt_def clearGrids_def emptyGrid_def ROWS_def COLS_def js_index_def)

lemma cellAt_toggleGrids:
  "cellAt (toggleGrids a r c gs) l r' c' =
     (if l = a \<and> r' = r \<and> c' = c \<and> rowExists gs a r
      then Some (\<not> truthy (cellAt gs a r c)) else cellAt gs l r' c')"
  by (auto simp: toggleGrids_def Let_def cellAt_update_row js_index_js_store rowExists_def)
     (auto simp: cellAt_def)

lemma cellAt_activateGrids:
  "cellAt (activateGrids a r c gs) l r' c' =
     (if l = a \<and> r' = r \<and> c' = c \<and> cellAt gs a r c = Some False
      then Some True else cellAt gs l r' c')"
  by (auto simp: activateGrids_def Let_def cellAt_update_row js_index_js_store)
     (auto simp: cellAt_def split: if_splits)

lemma activateGrids_unchanged:
  "cellAt gs a r c \<noteq> Some False \<Longrightarrow> activateGrids a r c gs = gs"
  by (auto simp: activateGrids_def Let_def cellAt_def)

lemma toggleGrids_twice:
  assumes "cellAt gs a r c = Some b"
  shows "toggleGrids a r c (toggleGrids a r c gs) = gs"
proof -
  from assms have a: "a < length gs" and r: "r < length (gs ! a)"
    and c: "c < length (gs ! a ! r)" and v: "gs ! a ! r ! c = Some b"
    by (auto simp: cellAt_def js_index_def split: if_splits)
  have row: "(gs ! a ! r)[c := Some b] = gs ! a ! r"
    using v by (metis list_update_id)
  show ?thesis
    using a r c v
    by (simp add: toggleGrids_def Let_def js_store_def js_index_def truthy_def row)
qed

subsection \<open>Every reachable grid is a boolean matrix\<close>

lemma cellsBoolean_iff:
  "cellsBoolean gs \<longleftrightarrow>
     length gs = 4 \<and> (\<forall>l r c. l < 4 \<longrightarrow> r < 16 \<longrightarrow> c < 16 \<longrightarrow> cellAt gs l r c \<noteq> None)"
  by (auto simp: cellsBoolean_def list_all_iff LAYER_COUNT_def ROWS_def COLS_def)

lemma cellsBoolean_initial: "cellsBoolean initialGrids"
  by (simp add: cellsBoolean_iff cellAt_initialGrids length_initialGrids)

lemma cellsBoolean_toggleGrids: "cellsBoolean gs \<Longrightarrow> cellsBoolean (toggleGrids a r c gs)"
  by (auto simp: cellsBoolean_iff cellAt_toggleGrids length_toggleGrids)

lemma cellsBoolean_activateGrids: "cellsBoolean gs \<Longrightarrow> cellsBoolean (activateGrids a r c gs)"
  by (auto simp: cellsBoolean_iff cellAt_activateGrids length_activateGrids)

lemma cellsBoolean_clearGrids: "cellsBoolean gs \<Longrightarrow> cellsBoolean (clearGrids a gs)"
  by (auto simp: cellsBoolean_iff cellAt_clearGrids length_clearGrids)

lemma uiInv_initial: "uiInv initialUi"
  by (simp add: uiInv_def initialUi_def cellsBoolean_initial LAYER_COUNT_def)

lemma uiInv_step:
  assumes "uiInv s"
  shows "uiInv (uiStep s ev)"
proof (cases ev)
  case (Toggle r c)
  with assms show ?thesis
    by (simp add: uiInv_def toggleCell_def cellsBoolean_toggleGrids)
next
  case (Enter r c)
  with assms show ?thesis
    by (simp add: uiInv_def handleMouseEnter_def cellsBoolean_activateGrids)
next
  case (Touch hit)
  with assms show ?thesis
    by (cases hit) (auto simp: uiInv_def handleTouchMove_def cellsBoolean_activateGrids)
next
  case Down
  with assms show ?thesis by (simp add: uiInv_def handleMouseDown_def)
next
  case Up
  with assms show ?thesis by (simp add: uiInv_def handleMouseUp_def)
next
  case Clear
  with assms show ?thesis by (simp add: uiInv_def handleClear_def cellsBoolean_clearGrids)
next
  case (Select idx)
  with assms show ?thesis by (simp add: uiInv_def setActiveLayerIdx_def)
qed

lemma uiInv_foldl: "uiInv s \<Longrightarrow> uiInv (foldl uiStep s evs)"
  by (induction evs arbitrary: s) (simp_all add: uiInv_step)

lemma uiInv_uiRun: "uiInv (uiRun evs)"
  by (simp add: uiRun_def uiInv_foldl uiInv_initial)

lemma uiRun_cell_boolean:
  assumes "r < 16" and "c < 16"
  shows "\<exists>b. cellAt (grids (uiRun evs)) (activeLayerIdx (uiRun evs)) r c = Some b"
proof -
  have "uiInv (uiRun evs)" by (rule uiInv_uiRun)
  with assms have "cellAt (grids (uiRun evs)) (activeLayerIdx (uiRun evs)) r c \<noteq> None"
    by (simp add: uiInv_def cellsBoolean_iff LAYER_COUNT_def)
  then show ?thesis by auto
qed

subsection \<open>The demonstration state\<close>

lemmas demo_simps =
  demoUi_def toggleCell_def setActiveLayerIdx_def initialUi_def handleClear_def
  handleMouseEnter_def handleMouseDown_def handleTouchMove_def
  length_toggleGrids length_initialGrids length_clearGrids length_activateGrids
  rowExists_toggleGrids rowExists_initialGrids rowExists_activateGrids
  cellAt_toggleGrids cellAt_initialGrids cellAt_clearGrids cellAt_activateGrids
  truthy_def cellActive_def

lemma demoUi_uiRun: "uiRun [Toggle 2 3, Select 1, Toggle 4 5] = demoUi"
  by (simp add: uiRun_def demoUi_def LAYER_COUNT_def)

lemma tickCells_demoUi:
  "tickCells (grids demoUi) 3 = [(0, 2)]" "tickCells (grids demoUi) 5 = [(1, 4)]"
  by (simp_all add: tickCells_def LAYER_COUNT_def ROWS_def upt_rec [of _ "numeral _"] demo_simps)

lemma demoUi_active: "activeLayerIdx demoUi = 1"
  by (simp add: demo_simps)

lemma demoUi_cells:
  "cellAt (grids demoUi) 1 4 5 = Some True" "cellAt (grids demoUi) 0 2 3 = Some True"
  "cellAt (grids demoUi) 1 4 6 = Some False" "length (grids demoUi) = 4"
  by (simp_all add: demo_simps)

subsection \<open>Clearing\<close>

text \<open>
  Claim C8. Clearing the active layer replaces that layer's grid by a fresh 16 by 16 grid
  in which every cell is inactive, and every other layer's grid is the one it was.
\<close>

theorem handleClear_active_layer_only:
  assumes "activeLayerIdx s < length (grids s)"
  shows "length (grids (handleClear s)) = length (grids s)
     \<and> length (grids (handleClear s) ! activeLayerIdx s) = 16
     \<and> (\<forall>r < 16. length (grids (handleClear s) ! activeLayerIdx s ! r) = 16
          \<and> (\<forall>c < 16. grids (handleClear s) ! activeLayerIdx s ! r ! c = Some False))
     \<and> (\<forall>l < length (grids s). l \<noteq> activeLayerIdx s
          \<longrightarrow> grids (handleClear s) ! l = grids s ! l)
     \<and> activeLayerIdx (handleClear s) = activeLayerIdx s"
  using assms
  by (simp add: handleClear_def clearGrids_def emptyGrid_def ROWS_def COLS_def)

theorem handleClear_active_layer_only_witness:
  "activeLayerIdx demoUi < length (grids demoUi)
   \<and> cellAt (grids demoUi) 1 4 5 = Some True
   \<and> grids (handleClear demoUi) ! 1 ! 4 ! 5 = Some False
   \<and> grids (handleClear demoUi) ! 0 = grids demoUi ! 0
   \<and> cellAt (grids (handleClear demoUi)) 0 2 3 = Some True"
proof -
  have h: "activeLayerIdx demoUi < length (grids demoUi)"
    by (simp add: demoUi_active demoUi_cells)
  have keep: "cellAt (grids (handleClear demoUi)) 0 2 3 = Some True"
    using demoUi_cells by (simp add: handleClear_def demoUi_active cellAt_clearGrids)
  from handleClear_active_layer_only [OF h]
  have "grids (handleClear demoUi) ! 1 ! 4 ! 5 = Some False"
    and "grids (handleClear demoUi) ! 0 = grids demoUi ! 0"
    by (simp_all add: demoUi_active demoUi_cells)
  with h keep demoUi_cells show ?thesis by simp
qed

subsection \<open>Toggling\<close>

lemma toggleCell_boolean_cell:
  assumes "cellAt (grids s) (activeLayerIdx s) r c = Some b"
  shows "grids (toggleCell r c (toggleCell r c s)) = grids s
     \<and> cellAt (grids (toggleCell r c s)) (activeLayerIdx s) r c = Some (\<not> b)
     \<and> (\<forall>l r' c'. (l, r', c') \<noteq> (activeLayerIdx s, r, c) \<longrightarrow>
            cellAt (grids (toggleCell r c s)) l r' c' = cellAt (grids s) l r' c')
     \<and> (\<forall>l. l \<noteq> activeLayerIdx s \<longrightarrow> grids (toggleCell r c s) ! l = grids s ! l)
     \<and> length (grids (toggleCell r c s)) = length (grids s)
     \<and> activeLayerIdx (toggleCell r c s) = activeLayerIdx s"
proof -
  let ?a = "activeLayerIdx s"
  from assms have a: "?a < length (grids s)" and r: "r < length (grids s ! ?a)"
    by (auto simp: cellAt_def split: if_splits)
  have g1: "grids (toggleCell r c s) = toggleGrids ?a r c (grids s)"
    and a1: "activeLayerIdx (toggleCell r c s) = ?a"
    using a by (simp_all add: toggleCell_def)
  have g2: "grids (toggleCell r c (toggleCell r c s))
              = toggleGrids ?a r c (toggleGrids ?a r c (grids s))"
    using a by (simp add: toggleCell_def length_toggleGrids)
  have other: "\<forall>l. l \<noteq> ?a \<longrightarrow> toggleGrids ?a r c (grids s) ! l = grids s ! l"
    by (simp add: toggleGrids_def Let_def)
  show ?thesis
    using assms a r
    by (simp add: g1 g2 a1 length_toggleGrids other toggleGrids_twice [OF assms]
                  cellAt_toggleGrids truthy_def rowExists_def)
qed

text \<open>
  Claim C10. When cell (r, c) of the active layer exists and holds a boolean, toggling it
  twice gives back the grids as they were; one toggle negates that cell, leaves every
  other cell of every layer as it was, leaves every other layer's grid as it was, and
  changes neither the number of layers nor the selected layer. In every state the grid
  store reaches from its initial state, every cell with row and column below 16 of the
  active layer is such a cell, so there toggling twice restores the grids.
\<close>

theorem toggleCell_involution:
  "(cellAt (grids s) (activeLayerIdx s) r c = Some b \<longrightarrow>
      grids (toggleCell r c (toggleCell r c s)) = grids s
      \<and> cellAt (grids (toggleCell r c s)) (activeLayerIdx s) r c = Some (\<not> b)
      \<and> (\<forall>l r' c'. (l, r', c') \<noteq> (activeLayerIdx s, r, c) \<longrightarrow>
             cellAt (grids (toggleCell r c s)) l r' c' = cellAt (grids s) l r' c')
      \<and> (\<forall>l. l \<noteq> activeLayerIdx s \<longrightarrow> grids (toggleCell r c s) ! l = grids s ! l)
      \<and> length (grids (toggleCell r c s)) = length (grids s)
      \<and> activeLayerIdx (toggleCell r c s) = activeLayerIdx s)
   \<and> (r < 16 \<and> c < 16 \<longrightarrow>
        grids (toggleCell r c (toggleCell r c (uiRun evs))) = grids (uiRun evs)
        \<and> cellActive (grids (toggleCell r c (uiRun evs))) (activeLayerIdx (uiRun evs)) r c
            = (\<not> cellActive (grids (uiRun evs)) (activeLayerIdx (uiRun evs)) r c))"
proof -
  have reach: "grids (toggleCell r c (toggleCell r c (uiRun evs))) = grids (uiRun evs)
        \<and> cellActive (grids (toggleCell r c (uiRun evs))) (activeLayerIdx (uiRun evs)) r c
            = (\<not> cellActive (grids (uiRun evs)) (activeLayerIdx (uiRun evs)) r c)"
    if "r < 16" and "c < 16"
  proof -
    from that obtain v
      where v: "cellAt (grids (uiRun evs)) (activeLayerIdx (uiRun evs)) r c = Some v"
      using uiRun_cell_boolean by blast
    from toggleCell_boolean_cell [OF v] v show ?thesis
      by (simp add: cellActive_def truthy_def)
  qed
  from toggleCell_boolean_cell [of s r c b] reach show ?thesis
    by blast
qed

theorem toggleCell_involution_witness:
  "cellAt (grids demoUi) (activeLayerIdx demoUi) 4 5 = Some True
   \<and> grids (toggleCell 4 5 (toggleCell 4 5 demoUi)) = grids demoUi
   \<and> cellAt (grids (toggleCell 4 5 demoUi)) 1 4 5 = Some False
   \<and> cellAt (grids (toggleCell 4 5 demoUi)) 0 2 3 = Some True
   \<and> grids (toggleCell 7 9 (toggleCell 7 9 (uiRun [Toggle 2 3, Select 1, Toggle 4 5])))
       = grids (uiRun [Toggle 2 3, Select 1, Toggle 4 5])"
proof -
  have h: "cellAt (grids demoUi) (activeLayerIdx demoUi) 4 5 = Some True"
    using demoUi_cells by (simp add: demoUi_active)
  note at_45 = toggleCell_involution [of demoUi 4 5 True "[Toggle 2 3, Select 1, Toggle 4 5]"]
  note at_79 = toggleCell_involution [of demoUi 7 9 True "[Toggle 2 3, Select 1, Toggle 4 5]"]
  have "grids (toggleCell 4 5 (toggleCell 4 5 demoUi)) = grids demoUi"
    and "cellAt (grids (toggleCell 4 5 demoUi)) 1 4 5 = Some False"
    and "cellAt (grids (toggleCell 4 5 demoUi)) 0 2 3 = Some True"
    using at_45 h demoUi_cells by (simp_all add: demoUi_active)
  moreover
  have "grids (toggleCell 7 9 (toggleCell 7 9 (uiRun [Toggle 2 3, Select 1, Toggle 4 5])))
          = grids (uiRun [Toggle 2 3, Select 1, Toggle 4 5])"
    using at_79 by simp
  ultimately show ?thesis using h by simp
qed

subsection \<open>Drag painting\<close>

text \<open>
  Claim C9. The drag-paint update turns cell (r, c) of the active layer on when it holds
  \<^verbatim>\<open>false\<close> and otherwise returns the grids unchanged; it changes no other cell, and
  every cell that was active is still active. Both drag handlers either apply this
  update or leave the grids alone.
\<close>

theorem drag_paint_monotone:
  "(cellAt gs a r c = Some False \<longrightarrow> cellAt (activateGrids a r c gs) a r c = Some True)
   \<and> (cellAt gs a r c \<noteq> Some False \<longrightarrow> activateGrids a r c gs = gs)
   \<and> (\<forall>l r' c'. (l, r', c') \<noteq> (a, r, c) \<longrightarrow>
          cellAt (activateGrids a r c gs) l r' c' = cellAt gs l r' c')
   \<and> (\<forall>l r' c'. cellActive gs l r' c' \<longrightarrow> cellActive (activateGrids a r c gs) l r' c')
   \<and> (grids (handleMouseEnter r c s) = grids s
        \<or> grids (handleMouseEnter r c s) = activateGrids (activeLayerIdx s) r c (grids s))
   \<and> (grids (handleTouchMove (Some (r, c)) s) = grids s
        \<or> grids (handleTouchMove (Some (r, c)) s)
            = activateGrids (activeLayerIdx s) r c (grids s))
   \<and> (\<forall>l r' c'. cellActive (grids s) l r' c'
          \<longrightarrow> cellActive (grids (handleMouseEnter r c s)) l r' c'
            \<and> cellActive (grids (handleTouchMove (Some (r, c)) s)) l r' c')"
proof -
  have mono: "cellActive (activateGrids a' r c gs') l r' c'"
    if "cellActive gs' l r' c'" for a' gs' l r' c'
    using that by (auto simp: cellActive_def cellAt_activateGrids truthy_def)
  have "cellAt gs a r c \<noteq> Some False \<longrightarrow> activateGrids a r c gs = gs"
    by (simp add: activateGrids_unchanged)
  moreover have "grids (handleMouseEnter r c s) = grids s
        \<or> grids (handleMouseEnter r c s) = activateGrids (activeLayerIdx s) r c (grids s)"
    by (simp add: handleMouseEnter_def)
  moreover have "grids (handleTouchMove (Some (r, c)) s) = grids s
        \<or> grids (handleTouchMove (Some (r, c)) s)
            = activateGrids (activeLayerIdx s) r c (grids s)"
    by (simp add: handleTouchMove_def)
  moreover have "\<forall>l r' c'. cellActive (grids s) l r' c'
          \<longrightarrow> cellActive (grids (handleMouseEnter r c s)) l r' c'
            \<and> cellActive (grids (handleTouchMove (Some (r, c)) s)) l r' c'"
    by (simp add: handleMouseEnter_def handleTouchMove_def mono)
  ultimately show ?thesis
    by (simp add: cellAt_activateGrids mono)
qed

theorem drag_paint_monotone_witness:
  "cellAt (grids demoUi) 1 4 6 = Some False
   \<and> cellAt (grids (handleMouseEnter 4 6 (handleMouseDown demoUi))) 1 4 6 = Some True
   \<and> cellActive (grids demoUi) 1 4 5
   \<and> cellActive (grids (handleMouseEnter 4 6 (handleMouseDown demoUi))) 1 4 5
   \<and> cellActive (grids (handleTouchMove (Some (4, 5)) demoUi)) 1 4 5
   \<and> activateGrids 1 4 5 (grids demoUi) = grids demoUi"
proof -
  have on: "cellActive (grids demoUi) 1 4 5"
    using demoUi_cells by (simp add: cellActive_def truthy_def)
  have g: "grids (handleMouseDown demoUi) = grids demoUi"
    and a: "activeLayerIdx (handleMouseDown demoUi) = 1"
    by (simp_all add: handleMouseDown_def demoUi_active)
  have enter: "grids (handleMouseEnter 4 6 (handleMouseDown demoUi))
                 = activateGrids 1 4 6 (grids demoUi)"
    by (simp add: handleMouseEnter_def handleMouseDown_def demoUi_active)
  note mono1 = drag_paint_monotone [of "grids demoUi" 1 4 6 "handleMouseDown demoUi"]
  note mono2 = drag_paint_monotone [of "grids demoUi" 1 4 5 demoUi]
  have "cellAt (activateGrids 1 4 6 (grids demoUi)) 1 4 6 = Some True"
    using mono1 demoUi_cells by simp
  moreover have "cellActive (grids (handleMouseEnter 4 6 (handleMouseDown demoUi))) 1 4 5"
    using mono1 on g by simp
  moreover have "cellActive (grids (handleTouchMove (Some (4, 5)) demoUi)) 1 4 5"
    using mono2 on by simp
  moreover have "activateGrids 1 4 5 (grids demoUi) = grids demoUi"
    using mono2 demoUi_cells by simp
  ultimately show ?thesis
    using on demoUi_cells by (simp add: enter)
qed

section \<open>Properties of the sequencer clock\<close>

lemma nextCol_mod: "- 1 \<le> prev \<Longrightarrow> nextCol prev = (prev + 1) mod 16"
  by (simp add: nextCol_def COLS_def signed_modulo_int_def sgn_if)

lemma nextCol_range: "- 1 \<le> prev \<Longrightarrow> 0 \<le> nextCol prev \<and> nextCol prev < 16"
  by (simp add: nextCol_mod)

lemma nextCol_sixteen: "(nextCol ^^ 16) 0 = 0"
  by (simp add: eval_nat_numeral nextCol_def COLS_def signed_modulo_int_def)

lemma seqInv_initial: "seqInv (sequencerEffect initialSeq)"
  by (simp add: seqInv_def sequencerEffect_def initialSeq_def)

lemma seqInv_step:
  assumes "seqInv s"
  shows "seqInv (seqStep s ev)"
proof (cases ev)
  case Start
  with assms show ?thesis
    by (auto simp: seqInv_def handleStart_def sequencerEffect_def)
next
  case Tick
  with assms nextCol_range [of "currentCol s"] show ?thesis
    by (auto simp: seqInv_def tick_def)
next
  case (BpmChange v)
  with assms show ?thesis
    by (auto simp: seqInv_def handleBpmChange_def sequencerEffect_def)
next
  case DepsChange
  with assms show ?thesis
    by (auto simp: seqInv_def sequencerEffect_def)
qed

lemma seqInv_foldl: "seqInv s \<Longrightarrow> seqInv (foldl seqStep s evs)"
  by (induction evs arbitrary: s) (simp_all add: seqInv_step)

lemma seqInv_seqRun: "seqInv (seqRun evs)"
  by (simp add: seqRun_def seqInv_foldl seqInv_initial)

lemma tick_funpow:
  assumes "interval s \<noteq> None"
  shows "(tick ^^ n) s = s\<lparr>currentCol := (nextCol ^^ n) (currentCol s)\<rparr>"
  using assms by (induction n) (auto simp: tick_def)

lemma foldl_ticks: "foldl seqStep s (replicate n Tick) = (tick ^^ n) s"
  by (induction n arbitrary: s) (simp_all add: funpow_swap1)

lemma seqRun_append: "seqRun (evs @ evs') = foldl seqStep (seqRun evs) evs'"
  by (simp add: seqRun_def)

lemma stored_tempo_finite:
  "Math_max (JNum MIN_BPM) (Math_min (JNum MAX_BPM) (JNum x)) = JNum (clamp_spec x 60 240)"
  by (simp add: clamp_spec_def MIN_BPM_def MAX_BPM_def)

lemma stored_tempo_infinite:
  "Math_max (JNum MIN_BPM) (Math_min (JNum MAX_BPM) JPosInf) = JNum 240"
  "Math_max (JNum MIN_BPM) (Math_min (JNum MAX_BPM) JNegInf) = JNum 60"
  by (simp_all add: MIN_BPM_def MAX_BPM_def)

lemma stored_tempo_NaN: "Math_max (JNum MIN_BPM) (Math_min (JNum MAX_BPM) JNaN) = JNaN"
  by simp

lemma stored_tempo_range:
  assumes "v \<noteq> JNaN"
  shows "tempoInRange (Math_max (JNum MIN_BPM) (Math_min (JNum MAX_BPM) v))"
  using assms by (cases v) (simp_all add: tempoInRange_def MIN_BPM_def MAX_BPM_def)

lemma tempoInRange_iff:
  "tempoInRange v \<longleftrightarrow> (\<exists>b. v = JNum b \<and> 60 \<le> b \<and> b \<le> 240)"
  by (cases v) (simp_all add: tempoInRange_def MIN_BPM_def MAX_BPM_def)

lemma msPerBeat_in_range:
  assumes "60 \<le> b" and "b \<le> 240"
  shows "msPerBeat (JNum b) = JNum (60000 / clamp_spec b 60 240 / 4)"
    and "safeBpm (JNum b) = JNum b"
  using assms by (simp_all add: msPerBeat_def safeBpm_def clamp_spec_def)

lemma safeBpm_at_least_1:
  "(\<forall>d. safeBpm v = JNum d \<longrightarrow> 1 \<le> d) \<and> safeBpm v \<noteq> JNegInf"
  by (cases v) (auto simp: safeBpm_def)

lemma tempo_step:
  assumes "tempoInRange (bpm s)" and "ev \<noteq> BpmChange JNaN"
  shows "tempoInRange (bpm (seqStep s ev))"
proof (cases ev)
  case Start
  with assms show ?thesis by (simp add: handleStart_def sequencerEffect_def)
next
  case Tick
  with assms show ?thesis by (simp add: tick_def)
next
  case (BpmChange v)
  with assms(2) have "v \<noteq> JNaN" by simp
  then have "tempoInRange (Math_max (JNum MIN_BPM) (Math_min (JNum MAX_BPM) v))"
    by (rule stored_tempo_range)
  with BpmChange show ?thesis by (simp add: handleBpmChange_def sequencerEffect_def)
next
  case DepsChange
  with assms show ?thesis by (simp add: sequencerEffect_def)
qed

lemma tempo_foldl:
  "tempoInRange (bpm s) \<Longrightarrow> list_all (\<lambda>ev. ev \<noteq> BpmChange JNaN) evs
     \<Longrightarrow> tempoInRange (bpm (foldl seqStep s evs))"
  by (induction evs arbitrary: s) (simp_all add: tempo_step)

lemma tempo_seqRun:
  assumes "numericTempo evs"
  shows "tempoInRange (bpm (seqRun evs))"
proof -
  have "tempoInRange (bpm (sequencerEffect initialSeq))"
    by (simp add: sequencerEffect_def initialSeq_def tempoInRange_def DEFAULT_BPM_def
                  MIN_BPM_def MAX_BPM_def)
  with assms show ?thesis
    by (simp add: seqRun_def numericTempo_def tempo_foldl)
qed

lemmas seq_eval =
  seqRun_def sequencerEffect_def initialSeq_def handleStart_def handleBpmChange_def tick_def
  nextCol_def COLS_def signed_modulo_int_def msPerBeat_def safeBpm_def DEFAULT_BPM_def
  MIN_BPM_def MAX_BPM_def clamp_spec_def numericTempo_def

text \<open>
  Claim C4. In every state the sequencer can reach, a tick while playing moves the step
  column to (previous + 1) mod 16, the column reads -1 while stopped and lies between -1
  and 15 always; sixteen ticks from column 0 lead back to column 0.
\<close>

theorem sequencer_column_cycle:
  "(isPlaying (seqRun evs) \<longrightarrow>
       currentCol (seqStep (seqRun evs) Tick) = (currentCol (seqRun evs) + 1) mod 16)
   \<and> (\<not> isPlaying (seqRun evs) \<longrightarrow>
       currentCol (seqRun evs) = - 1 \<and> seqStep (seqRun evs) Tick = seqRun evs)
   \<and> - 1 \<le> currentCol (seqRun evs) \<and> currentCol (seqRun evs) < 16
   \<and> (isPlaying (seqRun evs) \<and> currentCol (seqRun evs) = 0 \<longrightarrow>
       currentCol (seqRun (evs @ replicate 16 Tick)) = 0)"
proof -
  let ?s = "seqRun evs"
  have inv: "seqInv ?s" by (rule seqInv_seqRun)
  have playing: "currentCol (seqStep ?s Tick) = (currentCol ?s + 1) mod 16" if "isPlaying ?s"
    using inv that by (simp add: seqInv_def tick_def nextCol_mod)
  have stopped: "currentCol ?s = - 1 \<and> seqStep ?s Tick = ?s" if "\<not> isPlaying ?s"
    using inv that by (simp add: seqInv_def tick_def)
  have cycle: "currentCol (seqRun (evs @ replicate 16 Tick)) = 0"
    if "isPlaying ?s" and "currentCol ?s = 0"
  proof -
    from inv that(1) have "interval ?s \<noteq> None" by (simp add: seqInv_def)
    then have "(tick ^^ 16) ?s = ?s\<lparr>currentCol := (nextCol ^^ 16) (currentCol ?s)\<rparr>"
      by (rule tick_funpow)
    with that(2) show ?thesis
      by (simp add: seqRun_append foldl_ticks nextCol_sixteen)
  qed
  from inv have "- 1 \<le> currentCol ?s \<and> currentCol ?s < 16" by (simp add: seqInv_def)
  with playing stopped cycle show ?thesis by blast
qed

theorem sequencer_column_cycle_witness:
  "isPlaying (seqRun [Start, Tick]) \<and> currentCol (seqRun [Start, Tick]) = 0
   \<and> currentCol (seqStep (seqRun [Start, Tick]) Tick) = 1
   \<and> currentCol (seqRun ([Start, Tick] @ replicate 16 Tick)) = 0
   \<and> \<not> isPlaying (seqRun [Start, Tick, Tick, Start])
   \<and> currentCol (seqRun [Start, Tick, Tick, Start]) = - 1"
proof -
  have p: "isPlaying (seqRun [Start, Tick])" and c: "currentCol (seqRun [Start, Tick]) = 0"
    by (simp_all add: seq_eval)
  have q: "\<not> isPlaying (seqRun [Start, Tick, Tick, Start])"
    by (simp add: seq_eval)
  from sequencer_column_cycle [of "[Start, Tick]"] p c
  have "currentCol (seqStep (seqRun [Start, Tick]) Tick) = 1"
    and "currentCol (seqRun ([Start, Tick] @ replicate 16 Tick)) = 0"
    by simp_all
  moreover from sequencer_column_cycle [of "[Start, Tick, Tick, Start]"] q
  have "currentCol (seqRun [Start, Tick, Tick, Start]) = - 1"
    by simp
  ultimately show ?thesis using p c q by simp
qed

text \<open>
  Claim C5, amended. For every input value v other than NaN the tempo setter stores
  clamp(v, 60, 240): for a finite v that is the clamp of the number (240 for 1000, 60 for
  -10), for +Infinity it is 240 and for -Infinity it is 60. In every state the sequencer
  reaches through inputs other than NaN the stored tempo is a finite number in [60, 240],
  the divisor of the period computation is that tempo, and while playing the period of
  the installed timer is 60000 / clamp(bpm, 60, 240) / 4 milliseconds. Whatever the
  stored tempo, the divisor of the period computation is never a number below 1, so a
  tempo of 0 or a negative one never reaches the division.
\<close>

theorem tempo_clamped:
  "bpm (handleBpmChange (JNum x) s) = JNum (clamp_spec x 60 240)
   \<and> bpm (handleBpmChange (JNum 1000) s) = JNum 240
   \<and> bpm (handleBpmChange (JNum (- 10)) s) = JNum 60
   \<and> bpm (handleBpmChange JPosInf s) = JNum 240
   \<and> bpm (handleBpmChange JNegInf s) = JNum 60
   \<and> (isPlaying s \<longrightarrow>
        interval (handleBpmChange (JNum x) s) = Some (JNum (60000 / clamp_spec x 60 240 / 4)))
   \<and> (numericTempo evs \<longrightarrow>
        (\<exists>b. bpm (seqRun evs) = JNum b \<and> 60 \<le> b \<and> b \<le> 240
            \<and> safeBpm (bpm (seqRun evs)) = JNum b
            \<and> (isPlaying (seqRun evs) \<longrightarrow>
                 interval (seqRun evs) = Some (JNum (60000 / clamp_spec b 60 240 / 4)))))
   \<and> (\<forall>d. safeBpm v = JNum d \<longrightarrow> 1 \<le> d) \<and> safeBpm v \<noteq> JNegInf"
proof -
  have stored: "bpm (handleBpmChange w s) = Math_max (JNum MIN_BPM) (Math_min (JNum MAX_BPM) w)"
    for w
    by (simp add: handleBpmChange_def sequencerEffect_def)
  have finite: "bpm (handleBpmChange (JNum w) s) = JNum (clamp_spec w 60 240)" for w
    by (simp only: stored stored_tempo_finite)
  have range: "60 \<le> clamp_spec x 60 240" "clamp_spec x 60 240 \<le> 240"
    by (simp_all add: clamp_spec_def)
  have period: "interval (handleBpmChange (JNum x) s)
                  = Some (JNum (60000 / clamp_spec x 60 240 / 4))"
    if "isPlaying s"
  proof -
    have "max MIN_BPM (min MAX_BPM x) = clamp_spec x 60 240"
      by (simp add: clamp_spec_def MIN_BPM_def MAX_BPM_def)
    with that have "interval (handleBpmChange (JNum x) s)
                      = Some (msPerBeat (JNum (clamp_spec x 60 240)))"
      by (simp add: handleBpmChange_def sequencerEffect_def)
    moreover have "clamp_spec (clamp_spec x 60 240) 60 240 = clamp_spec x 60 240"
      by (simp add: clamp_spec_def)
    ultimately show ?thesis
      using msPerBeat_in_range(1) [OF range] by simp
  qed
  have reach: "\<exists>b. bpm (seqRun evs) = JNum b \<and> 60 \<le> b \<and> b \<le> 240
            \<and> safeBpm (bpm (seqRun evs)) = JNum b
            \<and> (isPlaying (seqRun evs) \<longrightarrow>
                 interval (seqRun evs) = Some (JNum (60000 / clamp_spec b 60 240 / 4)))"
    if "numericTempo evs"
  proof -
    from that have "tempoInRange (bpm (seqRun evs))" by (rule tempo_seqRun)
    then obtain b where b: "bpm (seqRun evs) = JNum b" "60 \<le> b" "b \<le> 240"
      by (auto simp: tempoInRange_iff)
    have inv: "seqInv (seqRun evs)" by (rule seqInv_seqRun)
    then have "interval (seqRun evs) = Some (JNum (60000 / clamp_spec b 60 240 / 4))"
      if "isPlaying (seqRun evs)"
      using that b msPerBeat_in_range(1) [OF b(2,3)] by (simp add: seqInv_def)
    with b msPerBeat_in_range(2) [OF b(2,3)] show ?thesis by simp
  qed
  have "bpm (handleBpmChange (JNum 1000) s) = JNum 240"
    and "bpm (handleBpmChange (JNum (- 10)) s) = JNum 60"
    by (simp_all add: finite clamp_spec_def)
  moreover have "bpm (handleBpmChange JPosInf s) = JNum 240"
    and "bpm (handleBpmChange JNegInf s) = JNum 60"
    by (simp_all only: stored stored_tempo_infinite)
  ultimately show ?thesis
    using finite [of x] period reach safeBpm_at_least_1 [of v] by blast
qed

theorem tempo_clamped_witness:
  "isPlaying (seqRun [Start])
   \<and> interval (handleBpmChange (JNum 1000) (seqRun [Start])) = Some (JNum 62.5)
   \<and> numericTempo [BpmChange (JNum (- 10)), Start]
   \<and> isPlaying (seqRun [BpmChange (JNum (- 10)), Start])
   \<and> interval (seqRun [BpmChange (JNum (- 10)), Start]) = Some (JNum 250)
   \<and> bpm (seqRun [BpmChange (JNum (- 10)), Start]) = JNum 60
   \<and> bpm (handleBpmChange JPosInf (seqRun [Start])) = JNum 240"
proof -
  have p: "isPlaying (seqRun [Start])"
    and q: "isPlaying (seqRun [BpmChange (JNum (- 10)), Start])"
    and b: "bpm (seqRun [BpmChange (JNum (- 10)), Start]) = JNum 60"
    and n: "numericTempo [BpmChange (JNum (- 10)), Start]"
    by (simp_all add: seq_eval)
  note at = tempo_clamped [of 1000 "seqRun [Start]" "[BpmChange (JNum (- 10)), Start]" JNaN]
  from at p have "interval (handleBpmChange (JNum 1000) (seqRun [Start])) = Some (JNum 62.5)"
    by (simp add: clamp_spec_def)
  moreover
  from at n q b have "interval (seqRun [BpmChange (JNum (- 10)), Start]) = Some (JNum 250)"
    by (auto simp: clamp_spec_def)
  moreover
  from at have "bpm (handleBpmChange JPosInf (seqRun [Start])) = JNum 240"
    by simp
  ultimately show ?thesis using p q b n by simp
qed

text \<open>
  Claim C5 as it was stated, for every input value, fails at the input NaN (what
  \<^verbatim>\<open>Number\<close> makes of a value that is no number): \<^verbatim>\<open>Math.min\<close> and \<^verbatim>\<open>Math.max\<close> hand it
  through, the setter stores NaN, which is no tempo in [60, 240], and while playing the
  period handed to the timer is NaN.
\<close>

theorem tempo_clamped_counterexample:
  "isPlaying (seqRun [Start])
   \<and> bpm (handleBpmChange JNaN (seqRun [Start])) = JNaN
   \<and> interval (handleBpmChange JNaN (seqRun [Start])) = Some JNaN
   \<and> \<not> tempoInRange (bpm (handleBpmChange JNaN (seqRun [Start])))"
  by (simp add: seq_eval tempoInRange_def)

section \<open>Properties of the effect simulation\<close>

subsection \<open>Capacity\<close>

lemma length_physicsLoop: "length (physicsLoop now effs) \<le> length effs"
  by (induction effs) (auto simp: Let_def split: prod.splits)

lemma length_updatePhysics:
  "length (updatePhysics now prev) \<le> MAX_EFFECTS
   \<and> length (updatePhysics now prev) \<le> length prev"
proof -
  have "length (physicsLoop now (drop (length prev - MAX_EFFECTS) prev))
          \<le> length (drop (length prev - MAX_EFFECTS) prev)"
    by (rule length_physicsLoop)
  then show ?thesis
    by (auto simp: updatePhysics_def Let_def)
qed

lemma addVisualEffect_full:
  "MAX_EFFECTS \<le> length prev \<Longrightarrow> addVisualEffect r c ty col idx rnd now prev = prev"
  by (simp add: addVisualEffect_def)

lemma length_addVisualEffect:
  "length prev \<le> MAX_EFFECTS
     \<Longrightarrow> length (addVisualEffect r c ty col idx rnd now prev) \<le> MAX_EFFECTS"
  by (simp add: addVisualEffect_def)

lemma length_effectStep:
  "length effs \<le> MAX_EFFECTS \<Longrightarrow> length (effectStep effs ev) \<le> MAX_EFFECTS"
  by (cases ev) (simp_all add: length_addVisualEffect length_updatePhysics)

lemma length_foldl_effectStep:
  "length effs \<le> MAX_EFFECTS \<Longrightarrow> length (foldl effectStep effs evs) \<le> MAX_EFFECTS"
  by (induction evs arbitrary: effs) (simp_all add: length_effectStep)

text \<open>
  Claim C3. Inserting into a collection of 150 or more effects returns the collection
  unchanged; inserting into one of at most 150 leaves at most 150; a simulation pass
  never returns more than 150, nor more than it was given; hence every collection
  reached from the empty one by insertions and simulation passes has at most 150
  elements.
\<close>

theorem effects_capacity:
  "(150 \<le> length prev \<longrightarrow> addVisualEffect r c ty col idx rnd now prev = prev)
   \<and> (length prev \<le> 150 \<longrightarrow> length (addVisualEffect r c ty col idx rnd now prev) \<le> 150)
   \<and> length (updatePhysics t prev) \<le> 150
   \<and> length (updatePhysics t prev) \<le> length prev
   \<and> length (effectRun evs) \<le> 150"
proof -
  have "length (effectRun evs) \<le> MAX_EFFECTS"
    by (simp add: effectRun_def length_foldl_effectStep)
  then show ?thesis
    using length_updatePhysics [of t prev]
          length_addVisualEffect [of prev r c ty col idx rnd now]
          addVisualEffect_full [of prev r c ty col idx rnd now]
    by (simp add: MAX_EFFECTS_def)
qed

theorem effects_capacity_witness:
  "length (replicate 150 rippleDemo) = 150
   \<and> addVisualEffect 1 2 STAR ''#fbbf24'' 3 constRnd 2000 (replicate 150 rippleDemo)
       = replicate 150 rippleDemo
   \<and> length (addVisualEffect 1 2 STAR ''#fbbf24'' 3 constRnd 2000 (replicate 149 rippleDemo))
       = 150
   \<and> length (updatePhysics 1016 (replicate 200 rippleDemo)) \<le> 150"
proof -
  note cap = effects_capacity [of _ 1 2 STAR "''#fbbf24''" 3 constRnd 2000 1016 "[]"]
  have "addVisualEffect 1 2 STAR ''#fbbf24'' 3 constRnd 2000 (replicate 150 rippleDemo)
          = replicate 150 rippleDemo"
    using cap [of "replicate 150 rippleDemo"] by simp
  moreover
  have "length (addVisualEffect 1 2 STAR ''#fbbf24'' 3 constRnd 2000 (replicate 149 rippleDemo))
          = 150"
    by (simp add: addVisualEffect_def MAX_EFFECTS_def)
  moreover have "length (updatePhysics 1016 (replicate 200 rippleDemo)) \<le> 150"
    using cap [of "replicate 200 rippleDemo"] by simp
  ultimately show ?thesis by simp
qed

subsection \<open>Splash particles\<close>

lemma particleUpdate_id: "particleUpdate p = p"
  by (cases p) (simp add: particleUpdate_def)

lemma splashStep_alive:
  assumes "\<forall>p \<in> set (particles eff). p_life p > 0"
  shows "splashStep eff = (eff, particles eff \<noteq> [])"
proof -
  have "map particleUpdate (particles eff) = particles eff"
    by (simp add: particleUpdate_id map_idI)
  moreover have "filter (\<lambda>p. p_life p > 0) (particles eff) = particles eff"
    using assms by (simp add: filter_id_conv)
  ultimately show ?thesis by (simp add: splashStep_def)
qed

lemma stepEffect_splashAlive: "splashAlive e \<Longrightarrow> stepEffect now e = (e, True)"
  by (simp add: splashAlive_def stepEffect_def splashStep_alive list_all_iff)

lemma newEffect_SPLASH:
  "length (particles (newEffect r c SPLASH col idx rnd now)) = 12"
  "map p_life (particles (newEffect r c SPLASH col idx rnd now)) = replicate 12 1"
  "splashAlive (newEffect r c SPLASH col idx rnd now)"
  by (simp_all add: newEffect_def particleCount_def makeParticle_def Let_def o_def
                    map_replicate_const splashAlive_def list_all_iff)

lemma physicsLoop_keeps_splash:
  assumes "splashAlive e"
  shows "e \<in> set effs \<Longrightarrow> e \<in> set (physicsLoop now effs)"
proof (induction effs)
  case Nil
  then show ?case by simp
next
  case (Cons a effs)
  obtain u k where step: "stepEffect now a = (u, k)" by (cases "stepEffect now a")
  show ?case
  proof (cases "e = a")
    case True
    with assms step have "u = e" "k" by (simp_all add: stepEffect_splashAlive)
    with step show ?thesis by simp
  next
    case False
    with Cons have "e \<in> set (physicsLoop now effs)" by simp
    with step show ?thesis by simp
  qed
qed

lemma updatePhysics_keeps_splash:
  assumes "splashAlive e" and "e \<in> set effs" and "length effs \<le> MAX_EFFECTS"
  shows "e \<in> set (updatePhysics now effs)"
proof -
  from assms(2) have ne: "effs \<noteq> []" by auto
  from assms(3) have "drop (length effs - MAX_EFFECTS) effs = effs" by simp
  with ne have "updatePhysics now effs = physicsLoop now effs"
    by (simp add: updatePhysics_def Let_def)
  with assms(1,2) show ?thesis
    by (simp add: physicsLoop_keeps_splash)
qed

lemma effectStep_keeps_splash:
  assumes "splashAlive e" and "e \<in> set effs" and "length effs \<le> MAX_EFFECTS"
  shows "e \<in> set (effectStep effs ev)"
proof (cases ev)
  case (Insert r c ty col idx rnd now)
  with assms(2) show ?thesis by (simp add: addVisualEffect_def)
next
  case (Frame now)
  with assms show ?thesis by (simp add: updatePhysics_keeps_splash)
qed

text \<open>
  Once a splash with living particles is in a collection within capacity, no sequence of
  insertions and simulation passes removes it.
\<close>

lemma splash_stays_forever:
  assumes "splashAlive e"
  shows "e \<in> set effs \<Longrightarrow> length effs \<le> MAX_EFFECTS
           \<Longrightarrow> e \<in> set (foldl effectStep effs evs)"
proof (induction evs arbitrary: effs)
  case Nil
  then show ?case by simp
next
  case (Cons ev evs)
  have "e \<in> set (effectStep effs ev)"
    using assms Cons.prems by (rule effectStep_keeps_splash)
  moreover have "length (effectStep effs ev) \<le> MAX_EFFECTS"
    using Cons.prems(2) by (rule length_effectStep)
  ultimately have "e \<in> set (foldl effectStep (effectStep effs ev) evs)"
    by (rule Cons.IH)
  then show ?case by simp
qed

lemma updatePhysics_new_SPLASH:
  "updatePhysics t [newEffect r c SPLASH col idx rnd now] = [newEffect r c SPLASH col idx rnd now]"
  by (simp add: updatePhysics_def Let_def stepEffect_splashAlive newEffect_SPLASH MAX_EFFECTS_def)

text \<open>
  Claim C1, evaluated on the code. A splash is created with 12 particles of life 1. The
  per-frame update returns every particle as it was (the spread of the old particle
  overwrites the five computed properties), so no particle's life ever reaches 0: after
  any number of simulation passes, at any times, the collection still holds the splash
  exactly as it was created.
\<close>

theorem splash_particles_never_age:
  "addVisualEffect r c SPLASH col idx rnd now [] = [newEffect r c SPLASH col idx rnd now]
   \<and> length (particles (newEffect r c SPLASH col idx rnd now)) = 12
   \<and> map p_life (particles (newEffect r c SPLASH col idx rnd now)) = replicate 12 1
   \<and> particleUpdate p = p
   \<and> foldl (\<lambda>effs t. updatePhysics t effs) [newEffect r c SPLASH col idx rnd now] ts
       = [newEffect r c SPLASH col idx rnd now]"
proof -
  have "foldl (\<lambda>effs t. updatePhysics t effs) [newEffect r c SPLASH col idx rnd now] ts
          = [newEffect r c SPLASH col idx rnd now]"
    by (induction ts) (simp_all add: updatePhysics_new_SPLASH)
  then show ?thesis
    by (simp add: addVisualEffect_def MAX_EFFECTS_def newEffect_SPLASH particleUpdate_id)
qed

subsection \<open>Rebound of a falling effect\<close>

lemma bounceVelocity_cases:
  "bounceVelocity h = (if h > 0 then Some (- sqrt (2 * 0.025 * h)) else Some 0)"
  by (simp add: bounceVelocity_def Math_sqrt_def num_neg_def gravity_def)

text \<open>
  Claim C6. When a GRAVITY effect crosses the floor in a frame, its position becomes the
  floor row and its velocity the rebound velocity, which is a number (never NaN):
  0 when floor - originRow is not positive (in particular when the origin row is 15.5),
  and -sqrt(2 * 0.025 * (floor - originRow)) when it is positive.
\<close>

theorem gravity_rebound:
  assumes "eff_type e = GRAVITY"
      and "num_lt (Some FLOOR_Y) (num_add (eff_y e) (eff_dy e))"
  shows "(FLOOR_Y - eff_r e \<le> 0 \<longrightarrow> eff_dy (fst (stepEffect now e)) = Some 0)
     \<and> (eff_r e = 15.5 \<longrightarrow> eff_dy (fst (stepEffect now e)) = Some 0)
     \<and> (FLOOR_Y - eff_r e > 0 \<longrightarrow>
          eff_dy (fst (stepEffect now e)) = Some (- sqrt (2 * 0.025 * (FLOOR_Y - eff_r e))))
     \<and> eff_dy (fst (stepEffect now e)) \<noteq> None
     \<and> eff_y (fst (stepEffect now e)) = Some FLOOR_Y"
  using assms
  by (simp add: stepEffect_def gravityStep_def Let_def bounceVelocity_cases FLOOR_Y_def)

lemma gravityOnFloor_fields:
  "eff_y gravityOnFloor = Some 15.5" "eff_dy gravityOnFloor = Some 0.025"
  "eff_r gravityOnFloor = 15.5" "eff_type gravityOnFloor = GRAVITY"
  by (simp_all add: gravityOnFloor_def stepEffect_def gravityStep_def Let_def newEffect_def
                    num_add_def num_lt_def FLOOR_Y_def gravity_def)

lemma gravityFalling_fields:
  "eff_y gravityFalling = Some 15.375" "eff_dy gravityFalling = Some 0.15"
  "eff_r gravityFalling = 15" "eff_type gravityFalling = GRAVITY"
  by (simp_all add: gravityFalling_def newEffect_def)

theorem gravity_rebound_witness:
  "eff_type gravityOnFloor = GRAVITY
   \<and> num_lt (Some FLOOR_Y) (num_add (eff_y gravityOnFloor) (eff_dy gravityOnFloor))
   \<and> eff_r gravityOnFloor = 15.5
   \<and> eff_dy (fst (stepEffect 1033 gravityOnFloor)) = Some 0
   \<and> eff_type gravityFalling = GRAVITY
   \<and> num_lt (Some FLOOR_Y) (num_add (eff_y gravityFalling) (eff_dy gravityFalling))
   \<and> eff_dy (fst (stepEffect 1116 gravityFalling)) = Some (- sqrt (2 * 0.025 * (FLOOR_Y - 15)))"
proof -
  have h1: "num_lt (Some FLOOR_Y) (num_add (eff_y gravityOnFloor) (eff_dy gravityOnFloor))"
    by (simp add: gravityOnFloor_fields num_add_def num_lt_def FLOOR_Y_def)
  have h2: "num_lt (Some FLOOR_Y) (num_add (eff_y gravityFalling) (eff_dy gravityFalling))"
    by (simp add: gravityFalling_fields num_add_def num_lt_def FLOOR_Y_def)
  have "eff_dy (fst (stepEffect 1033 gravityOnFloor)) = Some 0"
    using gravity_rebound [OF gravityOnFloor_fields(4) h1, of 1033]
    by (simp add: gravityOnFloor_fields)
  moreover
  have "eff_dy (fst (stepEffect 1116 gravityFalling))
          = Some (- sqrt (2 * 0.025 * (FLOOR_Y - 15)))"
    using gravity_rebound [OF gravityFalling_fields(4) h2, of 1116]
    by (simp add: gravityFalling_fields FLOOR_Y_def)
  ultimately show ?thesis
    using h1 h2 by (simp add: gravityOnFloor_fields gravityFalling_fields)
qed

section \<open>Properties of the brightness field\<close>

lemma getCellBrightness_le_1: "getCellBrightness a effs now r c \<le> 1"
  by (simp add: getCellBrightness_def)

lemma brightnessLoop_no_match:
  "\<forall>e \<in> set effs. layerIdx e \<noteq> a \<Longrightarrow> brightnessLoop a now r c effs b = b"
  by (induction effs) simp_all

lemma getCellBrightness_no_match:
  "\<forall>e \<in> set effs. layerIdx e \<noteq> a \<Longrightarrow> getCellBrightness a effs now r c = 0"
  by (simp add: getCellBrightness_def brightnessLoop_no_match)

lemma brightnessLoop_no_contribution:
  assumes "\<forall>e \<in> set effs. layerIdx e = a \<longrightarrow> contribution e now r c = 0"
  shows "b < 1 \<Longrightarrow> brightnessLoop a now r c effs b = b"
  using assms by (induction effs) (simp_all add: Let_def)

lemma getCellBrightness_no_contribution:
  assumes "\<forall>e \<in> set effs. layerIdx e = a \<longrightarrow> contribution e now r c = 0"
  shows "getCellBrightness a effs now r c = 0"
  using assms brightnessLoop_no_contribution [of "rev effs" a now r c 0]
  by (simp add: getCellBrightness_def)

lemma particleBrightness_nonneg:
  assumes "0 \<le> p_life p"
  shows "0 \<le> particleBrightness e r c p"
proof -
  have "0 \<le> (1 - d / sz) * p_life p" if "d < sz" and "0 \<le> d" for d sz :: real
  proof -
    from that have "d / sz \<le> 1" by (simp add: divide_le_eq_1)
    with assms show ?thesis by simp
  qed
  then show ?thesis
    by (simp add: particleBrightness_def Let_def)
qed

lemma splashBrightness_nonneg:
  assumes "\<forall>p \<in> set (particles e). 0 \<le> p_life p"
  shows "0 \<le> splashBrightness e r c"
  unfolding splashBrightness_def
  by (rule sum_list_nonneg) (use assms in \<open>auto simp: particleBrightness_nonneg\<close>)

lemma rippleBrightness_nonneg:
  assumes "now - startTime e \<le> 600"
  shows "0 \<le> rippleBrightness e now r c"
  using assms by (simp add: rippleBrightness_def Let_def)

lemma gravityBrightness_nonneg: "0 \<le> gravityBrightness e r c"
  by (cases "eff_y e")
     (simp_all add: gravityBrightness_def Let_def num_lt_def Math_abs_def num_sub_def)

lemma starBrightness_nonneg: "0 \<le> starBrightness e now r c"
  by (auto simp: starBrightness_def Let_def intro!: add_nonneg_nonneg mult_nonneg_nonneg)

lemma contribution_nonneg:
  assumes "contributesSoundly now e"
  shows "0 \<le> contribution e now r c"
  using assms
  by (cases "eff_type e")
     (simp_all add: contribution_def contributesSoundly_def list_all_iff
        rippleBrightness_nonneg gravityBrightness_nonneg splashBrightness_nonneg
        starBrightness_nonneg)

lemma brightnessLoop_nonneg:
  assumes "\<forall>e \<in> set effs. contributesSoundly now e"
  shows "0 \<le> b \<Longrightarrow> 0 \<le> brightnessLoop a now r c effs b"
  using assms
proof (induction effs arbitrary: b)
  case Nil
  then show ?case by simp
next
  case (Cons e effs)
  then have "0 \<le> b + contribution e now r c"
    by (simp add: contribution_nonneg)
  with Cons show ?case by (simp add: Let_def)
qed

text \<open>
  The query stays within [0, 1] as long as no ripple in the collection is older than 600
  milliseconds at query time and no particle has negative life.
\<close>

lemma getCellBrightness_range:
  assumes "\<forall>e \<in> set effs. contributesSoundly now e"
  shows "0 \<le> getCellBrightness a effs now r c \<and> getCellBrightness a effs now r c \<le> 1"
  using assms brightnessLoop_nonneg [of "rev effs" now 0 a r c]
  by (simp add: getCellBrightness_def)

text \<open>
  Claim C2, evaluated on the code. The simulation pass at time 1598 keeps the ripple
  created at time 1000 (its age is not over 600), and a query at time 1610, before the
  next pass, finds it aged 610: at cell (1, 3), seven rows from its origin, the ripple
  contributes (1 - 0.32) * (1 - 610/600), and the query returns -17/1500, below 0.
\<close>

theorem ripple_brightness_negative:
  "effectRun [Insert 8 3 RIPPLE ''#60a5fa'' 0 constRnd 1000, Frame 1598] = [rippleDemo]
   \<and> getCellBrightness 0 [rippleDemo] 1610 1 3 = - 17 / 1500
   \<and> getCellBrightness 0 [rippleDemo] 1610 1 3 < 0"
proof -
  have "effectRun [Insert 8 3 RIPPLE ''#60a5fa'' 0 constRnd 1000, Frame 1598] = [rippleDemo]"
    by (simp add: effectRun_def addVisualEffect_def updatePhysics_def Let_def stepEffect_def
                  rippleDemo_def newEffect_def lifeTime_def MAX_EFFECTS_def)
  moreover have "getCellBrightness 0 [rippleDemo] 1610 1 3 = - 17 / 1500"
    by (simp add: getCellBrightness_def rippleDemo_def newEffect_def contribution_def
                  rippleBrightness_def Let_def)
  ultimately show ?thesis by simp
qed

section \<open>Properties of the audio engine\<close>

lemma failed_init_not_ready:
  assumes "\<not> hostWorks h"
  shows "ctx (init h newAudioEngine) = None \<or> \<not> isInitialized (init h newAudioEngine)"
  using assms by (cases h) (simp_all add: init_def newAudioEngine_def hostWorks_def)

lemma playDrum_guard:
  "ctx x = None \<or> \<not> isInitialized x \<Longrightarrow> playDrum x row v = x"
  by (cases "ctx x") (simp_all add: playDrum_def)

lemma playTone_guard:
  "ctx x = None \<or> \<not> isInitialized x \<Longrightarrow> playTone x row ty oct v = x"
  by (cases "ctx x") (simp_all add: playTone_def)

lemma dispose_not_ready: "ctx (dispose e) = None"
  by (simp add: dispose_def split: option.splits)

text \<open>
  Claim C7. When the engine has no audio context or its initialization flag is unset,
  both triggers return the engine exactly as it was, for every row, waveform kind, octave
  offset and volume. That is the engine's condition when it was never initialized, after
  an initialization on a host without working audio, and after disposal.
\<close>

theorem triggers_noop_without_audio:
  "(ctx e = None \<or> \<not> isInitialized e \<longrightarrow>
      playTone e row layerType baseOctave volume = e \<and> playDrum e row volume = e)
   \<and> playTone newAudioEngine row layerType baseOctave volume = newAudioEngine
   \<and> playDrum newAudioEngine row volume = newAudioEngine
   \<and> (\<not> hostWorks h \<longrightarrow>
        playTone (init h newAudioEngine) row layerType baseOctave volume = init h newAudioEngine
        \<and> playDrum (init h newAudioEngine) row volume = init h newAudioEngine)
   \<and> playTone (dispose e) row layerType baseOctave volume = dispose e
   \<and> playDrum (dispose e) row volume = dispose e"
proof -
  have guard: "playTone x row layerType baseOctave volume = x \<and> playDrum x row volume = x"
    if "ctx x = None \<or> \<not> isInitialized x" for x
    using that playTone_guard [of x] playDrum_guard [of x] by blast
  have "ctx newAudioEngine = None" by (simp add: newAudioEngine_def)
  with guard [of newAudioEngine] guard [of e] guard [of "dispose e"]
       guard [of "init h newAudioEngine"] failed_init_not_ready [of h]
       dispose_not_ready [of e]
  show ?thesis by blast
qed

theorem triggers_noop_without_audio_witness:
  "ctx (init NoAudioAPI newAudioEngine) = None
   \<and> playTone (init NoAudioAPI newAudioEngine) 10 ''sine'' 0 0.8 = init NoAudioAPI newAudioEngine
   \<and> ctx (init (WiringFails testContext Connect) newAudioEngine) \<noteq> None
   \<and> \<not> isInitialized (init (WiringFails testContext Connect) newAudioEngine)
   \<and> playDrum (init (WiringFails testContext Connect) newAudioEngine) 13 0.8
       = init (WiringFails testContext Connect) newAudioEngine
   \<and> playTone (init (Browser testContext) newAudioEngine) 10 ''sine'' 0 0.8
       \<noteq> init (Browser testContext) newAudioEngine"
proof -
  have a: "ctx (init NoAudioAPI newAudioEngine) = None"
    and b: "ctx (init (WiringFails testContext Connect) newAudioEngine) \<noteq> None"
           "\<not> isInitialized (init (WiringFails testContext Connect) newAudioEngine)"
    by (simp_all add: init_def newAudioEngine_def)
  have "playTone (init NoAudioAPI newAudioEngine) 10 ''sine'' 0 0.8
          = init NoAudioAPI newAudioEngine"
    using triggers_noop_without_audio [of "init NoAudioAPI newAudioEngine" 10 "''sine''" 0 "0.8" NoWindow]
          a by simp
  moreover
  have "playDrum (init (WiringFails testContext Connect) newAudioEngine) 13 0.8
          = init (WiringFails testContext Connect) newAudioEngine"
    using triggers_noop_without_audio
            [of "init (WiringFails testContext Connect) newAudioEngine" 13 "''drum''" 0 "0.8" NoWindow]
          b by simp
  moreover
  have "playTone (init (Browser testContext) newAudioEngine) 10 ''sine'' 0 0.8
          \<noteq> init (Browser testContext) newAudioEngine"
    by (simp add: playTone_def init_def newAudioEngine_def schedule_def resume_def
                  testContext_def Let_def)
  ultimately show ?thesis using a b by simp
qed

end
